theory Spec2Isabelle
  imports Complex_Main "HOL-Library.Word" "HOL-Library.Log_Nat"
begin

unbundle bit_operations_syntax

section \<open>Data model\<close>

text \<open>
  The program is Python 2 (\<^verbatim>\<open>print\<close> statements, \<^verbatim>\<open>ord\<close> on the characters of a
  \<^verbatim>\<open>str\<close>): a \<^verbatim>\<open>str\<close> is a string of 8-bit characters, integers are unbounded,
  and \<^verbatim>\<open>/\<close> between two integers is floor division.
\<close>

type_synonym byte = "8 word"
type_synonym bytes = "byte list"

text \<open>The exceptions the modelled code can raise.\<close>

datatype error = ValueError | IndexError | ZeroDivisionError | TypeError | IOError

section \<open>The word encoder: \<^verbatim>\<open>key_to_english\<close>\<close>

text \<open>
  \<^verbatim>\<open>nbits = int(math.floor(math.log(len(words))/math.log(2)))\<close>, computed here on
  the naturals (the floating-point rounding of the two logarithms is not modelled).
  \<^verbatim>\<open>math.log(0)\<close> raises ValueError; \<open>key_to_english\<close> checks for that before it
  calls \<open>nbits_of\<close>.
\<close>

fun nbits_of :: "nat \<Rightarrow> nat" where
  "nbits_of n = (if n < 2 then 0 else Suc (nbits_of (n div 2)))"

declare nbits_of.simps [simp del]

text \<open>
  The loop state of \<^verbatim>\<open>key_to_english\<close>: the index \<^verbatim>\<open>ix\<close> being accumulated, the
  number \<^verbatim>\<open>n\<close> of bits in it, and the output list \<^verbatim>\<open>out\<close>.
\<close>

type_synonym enc_state = "nat \<times> nat \<times> string list"

text \<open>\<^verbatim>\<open>out.append(words[ix])\<close>: IndexError when \<^verbatim>\<open>ix\<close> is past the end of the list
  (\<^verbatim>\<open>ix\<close> is never negative).\<close>

definition emit :: "string list \<Rightarrow> nat \<Rightarrow> string list \<Rightarrow> error + string list" where
  "emit words ix out = (if ix < length words then Inr (out @ [words ! ix]) else Inl IndexError)"

text \<open>
  The inner loop, for one character:
  \<^verbatim>\<open>while byte!=0: ix = ix << 1; ix = ix | (byte&1); byte = byte >> 1; n = n + 1;
  if n==nbits: out.append(words[ix]); n = 0; ix = 0\<close>.
\<close>

function bits_loop :: "string list \<Rightarrow> nat \<Rightarrow> byte \<Rightarrow> enc_state \<Rightarrow> error + enc_state" where
  "bits_loop words nbits byte (ix, n, out) =
     (if byte = 0 then Inr (ix, n, out)
      else
        let ix1 = push_bit 1 ix;
            ix2 = ix1 OR unat (byte AND 1);
            byte' = drop_bit 1 byte;
            n' = n + 1
        in if n' = nbits
           then (case emit words ix2 out of
                   Inl e \<Rightarrow> Inl e
                 | Inr out' \<Rightarrow> bits_loop words nbits byte' (0, 0, out'))
           else bits_loop words nbits byte' (ix2, n', out))"
  by pat_completeness auto

termination
  by (relation "measure (\<lambda>(words, nbits, byte, st). unat byte)")
     (auto simp: drop_bit_eq_div unat_div unat_gt_0)

declare bits_loop.simps [simp del]

text \<open>The outer loop, \<^verbatim>\<open>for char in s: byte = ord(char); ...\<close>.\<close>

fun chars_loop :: "string list \<Rightarrow> nat \<Rightarrow> bytes \<Rightarrow> enc_state \<Rightarrow> error + enc_state" where
  "chars_loop words nbits [] st = Inr st"
| "chars_loop words nbits (c # cs) st =
     (case bits_loop words nbits c st of
        Inl e \<Rightarrow> Inl e
      | Inr st' \<Rightarrow> chars_loop words nbits cs st')"

text \<open>
  \<^verbatim>\<open>key_to_english(s, words)\<close>. After the loop a partial group (\<^verbatim>\<open>n>0\<close>) gives
  one more word.
\<close>

definition key_to_english :: "bytes \<Rightarrow> string list \<Rightarrow> error + string list" where
  "key_to_english s words =
     (if words = [] then Inl ValueError
      else
        let nbits = nbits_of (length words)
        in (case chars_loop words nbits s (0, 0, []) of
              Inl e \<Rightarrow> Inl e
            | Inr (ix, n, out) \<Rightarrow> if n > 0 then emit words ix out else Inr out))"

section \<open>External collaborators\<close>

text \<open>
  The digest object (\<^verbatim>\<open>hashlib.sha512()\<close>) and the module-level generator of Python's
  \<^verbatim>\<open>random\<close> are libraries, not code of this program: they are parameters of the
  model. \<open>'h\<close> is the state of the digest object, \<open>'g\<close> the state of the process-wide
  generator. \<^verbatim>\<open>random.randint(a, b)\<close> reads and advances the generator state;
  \<^verbatim>\<open>random.seed(x)\<close> replaces it by a state that depends on \<^verbatim>\<open>x\<close> alone.
\<close>

record ('h, 'g) extern =
  sha_update :: "'h \<Rightarrow> bytes \<Rightarrow> 'h"
  sha_digest :: "'h \<Rightarrow> bytes"
  randint :: "'g \<Rightarrow> int \<Rightarrow> int \<Rightarrow> int \<times> 'g"
  seed :: "bytes \<Rightarrow> 'g"

section \<open>Python primitives\<close>

text \<open>\<^verbatim>\<open>int(x)\<close> on a float truncates towards zero. The float \<^verbatim>\<open>percent\<close> is
  modelled as a rational number: rounding of floating-point products and quotients is
  not modelled.\<close>

definition py_int :: "rat \<Rightarrow> int" where
  "py_int x = (if 0 \<le> x then \<lfloor>x\<rfloor> else \<lceil>x\<rceil>)"

text \<open>\<^verbatim>\<open>str(size)\<close>: the decimal digits, with a minus sign for a negative number.\<close>

fun dec_digits :: "nat \<Rightarrow> bytes" where
  "dec_digits n =
     (if n < 10 then [of_nat (48 + n)]
      else dec_digits (n div 10) @ [of_nat (48 + n mod 10)])"

declare dec_digits.simps [simp del]

definition py_str :: "int \<Rightarrow> bytes" where
  "py_str i = (if i < 0 then 45 # dec_digits (nat (- i)) else dec_digits (nat i))"

text \<open>\<^verbatim>\<open>xs[0:n]\<close>: a negative \<^verbatim>\<open>n\<close> counts from the end.\<close>

definition slice_to :: "'a list \<Rightarrow> int \<Rightarrow> 'a list" where
  "slice_to xs n = (if n < 0 then take (nat (int (length xs) + n)) xs else take (nat n) xs)"

text \<open>\<^verbatim>\<open>" ".join(words)\<close>.\<close>

fun join_sp :: "string list \<Rightarrow> string" where
  "join_sp [] = []"
| "join_sp [w] = w"
| "join_sp (w # ws) = w @ '' '' @ join_sp ws"

text \<open>
  The file object, as the bytes of a regular file. \<^verbatim>\<open>f.seek(offset)\<close> with a negative
  offset raises IOError (invalid argument); a seek past the end succeeds and the read
  that follows returns the empty string. \<^verbatim>\<open>f.read(k)\<close> returns at most \<^verbatim>\<open>k\<close> bytes,
  and everything up to the end of the file when \<^verbatim>\<open>k\<close> is negative. Every read of
  \<^verbatim>\<open>sha_file_random\<close> follows a seek, so the file position is not part of the state.
\<close>

definition seek_read :: "bytes \<Rightarrow> int \<Rightarrow> int \<Rightarrow> error + bytes" where
  "seek_read f offset k =
     (if offset < 0 then Inl IOError
      else
        let rest = drop (nat offset) f
        in Inr (if k < 0 then rest else take (nat k) rest))"

section \<open>Full hashing: \<^verbatim>\<open>sha_file\<close>\<close>

text \<open>\<^verbatim>\<open>hash = sha.digest(); sha.update(sha.digest()); hash2 = sha.digest()\<close>: the end of
  both \<^verbatim>\<open>sha_file\<close> and \<^verbatim>\<open>sha_file_random\<close>.\<close>

definition two_digests :: "('h, 'g) extern \<Rightarrow> 'h \<Rightarrow> (bytes \<times> bytes) \<times> 'h" where
  "two_digests E sha =
     (let hash = sha_digest E sha;
          sha' = sha_update E sha (sha_digest E sha);
          hash2 = sha_digest E sha'
      in ((hash, hash2), sha'))"

text \<open>\<^verbatim>\<open>while read!='': read = f.read(1024*1024); sha.update(read)\<close>, on the bytes of the
  file that are still unread.\<close>

function read_all :: "('h, 'g) extern \<Rightarrow> bytes \<Rightarrow> 'h \<Rightarrow> 'h" where
  "read_all E rest sha =
     (let rd = take (1024 * 1024) rest;
          sha' = sha_update E sha rd
      in if rd = [] then sha' else read_all E (drop (1024 * 1024) rest) sha')"
  by pat_completeness auto

termination
  by (relation "measure (\<lambda>(E, rest, sha). length rest)") auto

declare read_all.simps [simp del]

definition sha_file :: "('h, 'g) extern \<Rightarrow> 'h \<Rightarrow> bytes \<Rightarrow> (bytes \<times> bytes) \<times> 'h" where
  "sha_file E sha f = two_digests E (read_all E f sha)"

section \<open>Sampled hashing: \<^verbatim>\<open>sha_file_random\<close>\<close>

text \<open>
  \<^verbatim>\<open>int(((size/block_size)*percent)/100)\<close>: \<^verbatim>\<open>size\<close> and \<^verbatim>\<open>block_size\<close> are integers,
  so \<^verbatim>\<open>size/block_size\<close> is Python 2's floor division, which is \<open>div\<close> on \<open>int\<close>.
\<close>

definition nominal_blocks :: "int \<Rightarrow> int \<Rightarrow> rat \<Rightarrow> int" where
  "nominal_blocks fsize block_size percent =
     py_int (((of_int (fsize div block_size)) * percent) / 100)"

text \<open>
  The number of blocks to inspect (the three \<^verbatim>\<open>if\<close> statements). With \<^verbatim>\<open>n_blocks\<close>
  absent, a zero \<^verbatim>\<open>block_size\<close> raises ZeroDivisionError and an absent \<^verbatim>\<open>percent\<close>
  raises TypeError (the product of a number and \<^verbatim>\<open>None\<close>).
\<close>

definition count_blocks ::
  "int \<Rightarrow> int \<Rightarrow> rat option \<Rightarrow> int option \<Rightarrow> int option \<Rightarrow> int option \<Rightarrow> error + int"
where
  "count_blocks fsize block_size percent n_blocks min_blocks max_blocks =
     (case (case n_blocks of
              Some k \<Rightarrow> Inr k
            | None \<Rightarrow>
                if block_size = 0 then Inl ZeroDivisionError
                else (case percent of
                        None \<Rightarrow> Inl TypeError
                      | Some p \<Rightarrow> Inr (nominal_blocks fsize block_size p))) of
        Inl e \<Rightarrow> Inl e
      | Inr k \<Rightarrow>
          let k1 = (case min_blocks of None \<Rightarrow> k | Some m \<Rightarrow> max k m);
              k2 = (case max_blocks of None \<Rightarrow> k1 | Some m \<Rightarrow> min k1 m)
          in Inr k2)"

text \<open>\<^verbatim>\<open>[random.randint(0, hi) for i in range(k)]\<close>: the draws are made one after the
  other on the generator state.\<close>

fun draw_offsets :: "('g \<Rightarrow> int \<Rightarrow> int \<Rightarrow> int \<times> 'g) \<Rightarrow> nat \<Rightarrow> int \<Rightarrow> 'g \<Rightarrow> int list \<times> 'g" where
  "draw_offsets rnd 0 hi g = ([], g)"
| "draw_offsets rnd (Suc k) hi g =
     (let (x, g1) = rnd g 0 hi;
          (xs, g2) = draw_offsets rnd k hi g1
      in (x # xs, g2))"

text \<open>
  \<^verbatim>\<open>block_offsets = [0] + [random.randint(0,max(0,size-block_size)) for i in
  range(n_blocks)] + [size-block_size]\<close>, then \<^verbatim>\<open>sorted(block_offsets)\<close>. The result is
  the sorted list and the generator state after the draws.
\<close>

definition block_offsets ::
  "('g \<Rightarrow> int \<Rightarrow> int \<Rightarrow> int \<times> 'g) \<Rightarrow> 'g \<Rightarrow> int \<Rightarrow> int \<Rightarrow> int \<Rightarrow> int list \<times> 'g"
where
  "block_offsets rnd g fsize block_size n_blocks =
     (let (xs, g') = draw_offsets rnd (nat n_blocks) (max 0 (fsize - block_size)) g
      in (sort ([0] @ xs @ [fsize - block_size]), g'))"

text \<open>
  The first part of \<^verbatim>\<open>sha_file_random\<close>, up to \<^verbatim>\<open>block_offsets = sorted(block_offsets)\<close>:
  the block size (512 when \<^verbatim>\<open>None\<close>), the file size (\<^verbatim>\<open>filesize\<close>, or the size of the
  file when \<^verbatim>\<open>None\<close>), the offsets, and the generator state after the draws. The
  arguments are the ones the caller passes; the command line passes every one of them,
  \<^verbatim>\<open>None\<close> for an option that was not given (the default \<^verbatim>\<open>min_blocks=100\<close> of the
  signature applies only to a caller that leaves the keyword out, and is then
  \<open>Some 100\<close> here).
\<close>

definition sample_plan ::
  "('h, 'g) extern \<Rightarrow> 'g \<Rightarrow> bytes \<Rightarrow> rat option \<Rightarrow> int option \<Rightarrow> int option \<Rightarrow> int option \<Rightarrow>
   int option \<Rightarrow> int option \<Rightarrow> error + (int \<times> int \<times> int list \<times> 'g)"
where
  "sample_plan E g f percent n_blocks min_blocks max_blocks block_size filesize =
     (let bs = (case block_size of None \<Rightarrow> 512 | Some b \<Rightarrow> b);
          fsize = (case filesize of None \<Rightarrow> int (length f) | Some sz \<Rightarrow> sz)
      in (case count_blocks fsize bs percent n_blocks min_blocks max_blocks of
            Inl e \<Rightarrow> Inl e
          | Inr k \<Rightarrow>
              let (offsets, g1) = block_offsets (randint E) g fsize bs k
              in Inr (fsize, bs, offsets, g1)))"

text \<open>\<^verbatim>\<open>for offset in block_offsets: f.seek(offset); sha.update(f.read(block_size))\<close>.\<close>

fun read_blocks :: "('h, 'g) extern \<Rightarrow> bytes \<Rightarrow> int \<Rightarrow> int list \<Rightarrow> 'h \<Rightarrow> error + 'h" where
  "read_blocks E f bs [] sha = Inr sha"
| "read_blocks E f bs (offset # offsets) sha =
     (case seek_read f offset bs of
        Inl e \<Rightarrow> Inl e
      | Inr blk \<Rightarrow> read_blocks E f bs offsets (sha_update E sha blk))"

text \<open>
  \<^verbatim>\<open>sha_file_random\<close>. After the offsets are computed: \<^verbatim>\<open>sha.update(str(size))\<close>,
  \<^verbatim>\<open>random.seed(sha.digest())\<close>, the reads, and the two digests. The result is the pair
  of digests together with the digest object and the process-wide generator as the call
  leaves them.
\<close>

definition sha_file_random ::
  "('h, 'g) extern \<Rightarrow> 'h \<Rightarrow> 'g \<Rightarrow> bytes \<Rightarrow> rat option \<Rightarrow> int option \<Rightarrow> int option \<Rightarrow>
   int option \<Rightarrow> int option \<Rightarrow> int option \<Rightarrow> error + ((bytes \<times> bytes) \<times> 'h \<times> 'g)"
where
  "sha_file_random E sha g f percent n_blocks min_blocks max_blocks block_size filesize =
     (case sample_plan E g f percent n_blocks min_blocks max_blocks block_size filesize of
        Inl e \<Rightarrow> Inl e
      | Inr (fsize, bs, offsets, g1) \<Rightarrow>
          let sha1 = sha_update E sha (py_str fsize);
              g2 = seed E (sha_digest E sha1)
          in (case read_blocks E f bs offsets sha1 of
                Inl e \<Rightarrow> Inl e
              | Inr sha2 \<Rightarrow>
                  let (hashes, sha3) = two_digests E sha2
                  in Inr (hashes, sha3, g2)))"

section \<open>The orchestrator: \<^verbatim>\<open>wordhash\<close>\<close>

text \<open>
  The second half of \<^verbatim>\<open>wordhash\<close>: \<^verbatim>\<open>padding = word_bits-((len(hash)*char_bits)%word_bits)\<close>,
  \<^verbatim>\<open>padding_bytes = padding//char_bits\<close>.
\<close>

definition padding_bytes :: "bytes \<Rightarrow> nat" where
  "padding_bytes hash =
     (let word_bits = 12;
          char_bits = 8;
          padding = word_bits - ((length hash * char_bits) mod word_bits)
      in padding div char_bits)"

text \<open>\<^verbatim>\<open>words = key_to_english(hash+hash2[0:padding_bytes], wordlist)\<close> and
  \<^verbatim>\<open>if n!=None: words = words[0:n]\<close>. The word list is a module-level variable of the
  source and a parameter here.\<close>

definition hash_words :: "string list \<Rightarrow> bytes \<Rightarrow> bytes \<Rightarrow> int option \<Rightarrow> error + string list" where
  "hash_words wordlist hash hash2 n =
     (case key_to_english (hash @ take (padding_bytes hash) hash2) wordlist of
        Inl e \<Rightarrow> Inl e
      | Inr words \<Rightarrow> Inr (case n of None \<Rightarrow> words | Some k \<Rightarrow> slice_to words k))"

definition wordhash ::
  "('h, 'g) extern \<Rightarrow> string list \<Rightarrow> 'h \<Rightarrow> 'g \<Rightarrow> bytes \<Rightarrow> int option \<Rightarrow> int option \<Rightarrow> rat option \<Rightarrow>
   int option \<Rightarrow> int option \<Rightarrow> int option \<Rightarrow> int option \<Rightarrow> error + (string \<times> 'h \<times> 'g)"
where
  "wordhash E wordlist sha g f n blocks percent min_blocks max_blocks block_size filesize =
     (case (if blocks \<noteq> None \<or> percent \<noteq> None
            then sha_file_random E sha g f percent blocks min_blocks max_blocks block_size filesize
            else (let (hashes, sha') = sha_file E sha f in Inr (hashes, sha', g))) of
        Inl e \<Rightarrow> Inl e
      | Inr ((hash, hash2), sha', g') \<Rightarrow>
          (case hash_words wordlist hash hash2 n of
             Inl e \<Rightarrow> Inl e
           | Inr words \<Rightarrow> Inr (join_sp words, sha', g')))"

section \<open>The specification's formula for the nominal block count\<close>


section \<open>Stand-ins for the external collaborators\<close>

text \<open>
  To run the model on concrete inputs the parameters need values. These are small
  stand-ins, not SHA-512 and not Python's generator: a digest object that keeps the
  bytes it was fed and reports their sum and count, and a generator whose state is a
  counter. The word list stand-in has 4096 entries, \<open>w0\<close> to \<open>w4095\<close>.
\<close>

definition demo_update :: "bytes \<Rightarrow> bytes \<Rightarrow> bytes" where
  "demo_update h d = h @ d"

definition demo_digest :: "bytes \<Rightarrow> bytes" where
  "demo_digest h = [of_nat (sum_list (map unat h)), of_nat (length h)]"

definition demo_randint :: "nat \<Rightarrow> int \<Rightarrow> int \<Rightarrow> int \<times> nat" where
  "demo_randint g a b = (a + int g mod (b - a + 1), Suc g)"

definition demo_seed :: "bytes \<Rightarrow> nat" where
  "demo_seed d = sum_list (map unat d)"

definition demo :: "(bytes, nat) extern" where
  "demo = \<lparr>sha_update = demo_update, sha_digest = demo_digest,
            randint = demo_randint, seed = demo_seed\<rparr>"

definition demo_word :: "nat \<Rightarrow> string" where
  "demo_word i = CHR ''w'' # map (\<lambda>b. char_of (unat b)) (dec_digits i)"

definition demo_words :: "string list" where
  "demo_words = map demo_word [0..<4096]"

text \<open>A file of ten bytes.\<close>

definition demo_file :: bytes where
  "demo_file = [10, 20, 30, 40, 50, 60, 70, 80, 90, 100]"

text \<open>
  The SHA-512 digest of the empty string (\<^verbatim>\<open>cf83e135 7eefb8bd ... f927da3e\<close>): the
  primary digest \<^verbatim>\<open>sha_file\<close> returns for an empty file. The secondary digest of the
  same run is the SHA-512 digest of these 64 bytes (\<^verbatim>\<open>826df068 ... 541bf949\<close>).
\<close>

definition sha512_empty :: bytes where
  "sha512_empty =
     [207, 131, 225, 53, 126, 239, 184, 189, 241, 84, 40, 80, 214, 109, 128, 7,
      214, 32, 228, 5, 11, 87, 21, 220, 131, 244, 169, 33, 211, 108, 233, 206,
      71, 208, 209, 60, 93, 133, 242, 176, 255, 131, 24, 210, 135, 126, 236, 47,
      99, 185, 49, 189, 71, 65, 122, 129, 165, 56, 50, 122, 249, 39, 218, 62]"

definition sha512_empty_secondary :: bytes where
  "sha512_empty_secondary =
     [130, 109, 240, 104, 69, 125, 245, 221, 25, 91, 67, 122, 183, 231, 115, 159,
      247, 93, 38, 114, 24, 63, 2, 187, 142, 16, 137, 250, 188, 249, 123, 217,
      220, 128, 17, 12, 244, 45, 188, 124, 255, 65, 199, 142, 203, 104, 216, 186,
      120, 171, 230, 181, 23, 141, 234, 57, 132, 223, 140, 85, 84, 27, 249, 73]"

section \<open>Properties of the word encoder\<close>

subsection \<open>The number of bits per word\<close>

lemma nbits_of_le: "0 < n \<Longrightarrow> 2 ^ nbits_of n \<le> n"
proof (induction n rule: nbits_of.induct)
  case (1 n)
  show ?case
  proof (cases "n < 2")
    case True
    with 1 show ?thesis by (simp add: nbits_of.simps)
  next
    case False
    then have "2 ^ nbits_of (n div 2) \<le> n div 2"
      using 1 by simp
    then show ?thesis
      using False by (subst nbits_of.simps) simp
  qed
qed

lemma nbits_of_pos: "2 \<le> n \<Longrightarrow> 0 < nbits_of n"
  by (subst nbits_of.simps) simp


lemma nbits_of_4096: "nbits_of 4096 = 12"
  by (simp add: nbits_of.simps)

subsection \<open>One step of the inner loop\<close>

lemma bits_loop_zero: "bits_loop words nbits 0 st = Inr st"
  by (cases st) (simp add: bits_loop.simps)

lemma bits_loop_nonzero:
  "byte \<noteq> 0 \<Longrightarrow>
   bits_loop words nbits byte (ix, n, out) =
     (if Suc n = nbits
      then (case emit words (push_bit 1 ix OR unat (byte AND 1)) out of
              Inl e \<Rightarrow> Inl e
            | Inr out' \<Rightarrow> bits_loop words nbits (drop_bit 1 byte) (0, 0, out'))
      else bits_loop words nbits (drop_bit 1 byte)
             (push_bit 1 ix OR unat (byte AND 1), Suc n, out))"
  by (subst bits_loop.simps) (simp add: Let_def split: sum.splits)

lemma low_bit: "unat ((b :: byte) AND 1) = (if odd b then 1 else 0)"
proof -
  have "b AND 1 = of_bool (odd b)"
    by (simp add: and_one_eq mod_2_eq_odd)
  then show ?thesis
    by simp
qed

lemma shift_in_bit:
  fixes ix :: nat and b :: byte
  shows "push_bit 1 ix OR unat (b AND 1) = 2 * ix + (if odd b then 1 else 0)"
proof -
  have "(2 * ix) OR 1 = 2 * ix + 1"
    by (simp add: or_Suc_0_eq)
  then show ?thesis
    by (simp add: low_bit push_bit_eq_mult mult.commute)
qed

lemma shift_in_bit_less:
  fixes ix :: nat and b :: byte
  assumes "ix < 2 ^ n"
  shows "push_bit 1 ix OR unat (b AND 1) < 2 ^ Suc n"
  using assms by (simp only: shift_in_bit) simp

lemma drop_bit_byte_less: "b \<noteq> 0 \<Longrightarrow> unat (drop_bit 1 b) < unat b" for b :: byte
  by (simp add: drop_bit_eq_div unat_div unat_gt_0)

lemma emit_in_range:
  "ix < length words \<Longrightarrow>
   emit words ix (map ((!) words) idxs) = Inr (map ((!) words) (idxs @ [ix]))"
  by (simp add: emit_def)

subsection \<open>The loop invariant\<close>

text \<open>
  With \<open>2 ^ nbits \<le> length words\<close>, the loops keep: the output is the words at a list
  of indices below \<open>2 ^ nbits\<close>, the index being accumulated is below \<open>2 ^ n\<close>, and
  \<open>n < nbits\<close>. No lookup fails.
\<close>

lemma bits_loop_inv:
  assumes "2 ^ nbits \<le> length words"
    and "ix < 2 ^ n" and "n < nbits" and "\<forall>i\<in>set idxs. i < 2 ^ nbits"
  shows "\<exists>ix' n' idxs'.
           bits_loop words nbits byte (ix, n, map ((!) words) idxs)
             = Inr (ix', n', map ((!) words) idxs')
           \<and> ix' < 2 ^ n' \<and> n' < nbits \<and> (\<forall>i\<in>set idxs'. i < 2 ^ nbits)"
  using assms(2-)
proof (induction "unat byte" arbitrary: byte ix n idxs rule: less_induct)
  case less
  show ?case
  proof (cases "byte = 0")
    case True
    then show ?thesis
      using less.prems by (auto simp: bits_loop_zero)
  next
    case False
    define ix2 where "ix2 = push_bit 1 ix OR unat (byte AND 1)"
    have ix2: "ix2 < 2 ^ Suc n"
      unfolding ix2_def using less.prems(1) by (rule shift_in_bit_less)
    have smaller: "unat (drop_bit 1 byte) < unat byte"
      using False by (rule drop_bit_byte_less)
    show ?thesis
    proof (cases "Suc n = nbits")
      case True
      then have "ix2 < length words"
        using ix2 assms(1) by simp
      then have e: "emit words ix2 (map ((!) words) idxs)
          = Inr (map ((!) words) (idxs @ [ix2]))"
        by (rule emit_in_range)
      have "\<forall>i\<in>set (idxs @ [ix2]). i < 2 ^ nbits"
        using less.prems(3) ix2 True by auto
      then have "\<exists>ix' n' idxs'.
           bits_loop words nbits (drop_bit 1 byte) (0, 0, map ((!) words) (idxs @ [ix2]))
             = Inr (ix', n', map ((!) words) idxs')
           \<and> ix' < 2 ^ n' \<and> n' < nbits \<and> (\<forall>i\<in>set idxs'. i < 2 ^ nbits)"
        using less.hyps [OF smaller, of 0 0 "idxs @ [ix2]"] less.prems(2) by simp
      moreover have "bits_loop words nbits byte (ix, n, map ((!) words) idxs)
          = bits_loop words nbits (drop_bit 1 byte) (0, 0, map ((!) words) (idxs @ [ix2]))"
        using False True e by (simp add: bits_loop_nonzero ix2_def)
      ultimately show ?thesis
        by simp
    next
      case neq: False
      then have "Suc n < nbits"
        using less.prems(2) by simp
      then have "\<exists>ix' n' idxs'.
           bits_loop words nbits (drop_bit 1 byte) (ix2, Suc n, map ((!) words) idxs)
             = Inr (ix', n', map ((!) words) idxs')
           \<and> ix' < 2 ^ n' \<and> n' < nbits \<and> (\<forall>i\<in>set idxs'. i < 2 ^ nbits)"
        using less.hyps [OF smaller, of ix2 "Suc n" idxs] ix2 less.prems(3) by simp
      moreover have "bits_loop words nbits byte (ix, n, map ((!) words) idxs)
          = bits_loop words nbits (drop_bit 1 byte) (ix2, Suc n, map ((!) words) idxs)"
        using False neq by (simp add: bits_loop_nonzero ix2_def)
      ultimately show ?thesis
        by simp
    qed
  qed
qed

lemma chars_loop_inv:
  assumes "2 ^ nbits \<le> length words"
  shows "ix < 2 ^ n \<Longrightarrow> n < nbits \<Longrightarrow> \<forall>i\<in>set idxs. i < 2 ^ nbits \<Longrightarrow>
         \<exists>ix' n' idxs'.
           chars_loop words nbits s (ix, n, map ((!) words) idxs)
             = Inr (ix', n', map ((!) words) idxs')
           \<and> ix' < 2 ^ n' \<and> n' < nbits \<and> (\<forall>i\<in>set idxs'. i < 2 ^ nbits)"
proof (induction s arbitrary: ix n idxs)
  case Nil
  then show ?case by auto
next
  case (Cons c cs)
  obtain ix1 n1 idxs1 where
    step: "bits_loop words nbits c (ix, n, map ((!) words) idxs)
             = Inr (ix1, n1, map ((!) words) idxs1)"
    and inv: "ix1 < 2 ^ n1" "n1 < nbits" "\<forall>i\<in>set idxs1. i < 2 ^ nbits"
    using bits_loop_inv [OF assms Cons.prems] by blast
  show ?case
    using Cons.IH [OF inv] by (simp add: step)
qed

lemma key_to_english_indices:
  assumes "2 \<le> length words"
  shows "\<exists>idxs. (\<forall>i\<in>set idxs. i < 2 ^ nbits_of (length words))
           \<and> key_to_english s words = Inr (map ((!) words) idxs)"
proof -
  let ?nb = "nbits_of (length words)"
  have le: "2 ^ ?nb \<le> length words"
    by (rule nbits_of_le) (use assms in linarith)
  have pos: "0 < ?nb"
    using assms by (rule nbits_of_pos)
  obtain ix n idxs where
    run: "chars_loop words ?nb s (0, 0, map ((!) words) [])
            = Inr (ix, n, map ((!) words) idxs)"
    and inv: "ix < 2 ^ n" "n < ?nb" "\<forall>i\<in>set idxs. i < 2 ^ ?nb"
    using chars_loop_inv [OF le, of 0 0 "[]" s] pos by auto
  have ne: "words \<noteq> []"
    using assms by (cases words) simp_all
  show ?thesis
  proof (cases "0 < n")
    case True
    have "(2::nat) ^ n < 2 ^ ?nb"
      using inv(2) by simp
    then have "ix < 2 ^ ?nb"
      using inv(1) by linarith
    then have "ix < length words" "\<forall>i\<in>set (idxs @ [ix]). i < 2 ^ ?nb"
      using le inv(3) by auto
    moreover have "key_to_english s words = emit words ix (map ((!) words) idxs)"
      using run True ne by (simp add: key_to_english_def)
    ultimately show ?thesis
      using emit_in_range [of ix words idxs] by metis
  next
    case False
    then have "key_to_english s words = Inr (map ((!) words) idxs)"
      using run ne by (simp add: key_to_english_def)
    then show ?thesis
      using inv(3) by blast
  qed
qed

subsection \<open>The stand-in word list\<close>

lemma length_demo_words: "length demo_words = 4096"
  by (simp add: demo_words_def)

lemma demo_words_nonempty: "demo_words \<noteq> []"
  by (simp add: demo_words_def)

lemma encode_sha512_empty:
  "map_sum id length (key_to_english sha512_empty demo_words) = Inr 38"
  by (simp add: sha512_empty_def key_to_english_def bits_loop_zero bits_loop_nonzero emit_def
      length_demo_words nbits_of_4096 demo_words_nonempty)

subsection \<open>The number of words\<close>

text \<open>
  Claim C3 says that the encoder consumes exactly 8 bits of every byte and so returns
  \<open>ceil(len(s) * 8 / 12)\<close> words. The inner loop runs \<^verbatim>\<open>while byte!=0\<close>, not 8 times:
  it stops at the highest set bit of the byte, and a zero byte contributes no bit at
  all. For the one-byte string \<open>0x00\<close> (and for three zero bytes) the code returns no
  word, where the claim says 1 (and 2); for the byte \<open>0x01\<close> it consumes one bit and
  returns the word at index 1; for the 64 bytes of the SHA-512 digest of the empty
  string it returns 38 words, where the claim says 43.
\<close>

theorem key_to_english_drops_high_zero_bits:
  "key_to_english [0] demo_words = Inr []
   \<and> key_to_english [0, 0, 0] demo_words = Inr []
   \<and> key_to_english [1] demo_words = Inr [demo_words ! 1]
   \<and> length sha512_empty = 64
   \<and> map_sum id length (key_to_english sha512_empty demo_words) = Inr 38"
proof -
  have small: "key_to_english [0] demo_words = Inr []
      \<and> key_to_english [0, 0, 0] demo_words = Inr []
      \<and> key_to_english [1] demo_words = Inr [demo_words ! 1]"
    by (simp add: key_to_english_def bits_loop_zero bits_loop_nonzero emit_def
        length_demo_words nbits_of_4096 demo_words_nonempty)
  have len: "length sha512_empty = 64"
    by (simp add: sha512_empty_def)
  show ?thesis
    using small len encode_sha512_empty by simp
qed

subsection \<open>Indexing the word list\<close>




section \<open>Properties of the orchestrator\<close>

lemma slice_to_nonneg: "0 \<le> k \<Longrightarrow> slice_to xs k = take (nat k) xs"
  by (simp add: slice_to_def)

text \<open>
  Claim C4 says that for a 64-byte primary digest one byte of the secondary digest is
  appended, that the last word is populated from the secondary digest, and that a
  request for 43 words returns 43 words. The docstrings say the same (one extra byte;
  padded so that 43 complete words can be formed). The code computes
  \<open>padding = 12 - 512 mod 12 = 4\<close> bits and \<open>padding_bytes = 4 // 8 = 0\<close>: nothing is
  appended. For an empty file, whose primary digest is the SHA-512 digest of the
  empty string, the encoder input is the primary digest alone, and a request for 43
  words returns 38.
\<close>

theorem no_secondary_byte_appended:
  "length sha512_empty = 64
   \<and> padding_bytes sha512_empty = 0
   \<and> sha512_empty @ take (padding_bytes sha512_empty) sha512_empty_secondary = sha512_empty
   \<and> map_sum id length (hash_words demo_words sha512_empty sha512_empty_secondary (Some 43))
       = Inr 38"
proof -
  have len: "length sha512_empty = 64"
    by (simp add: sha512_empty_def)
  have pad: "padding_bytes sha512_empty = 0"
    by (simp add: padding_bytes_def len)
  have "hash_words demo_words sha512_empty sha512_empty_secondary (Some 43)
      = map_sum id (\<lambda>ws. take 43 ws) (key_to_english sha512_empty demo_words)"
    by (cases "key_to_english sha512_empty demo_words")
       (simp_all add: hash_words_def pad slice_to_nonneg)
  moreover obtain ws where "key_to_english sha512_empty demo_words = Inr ws" "length ws = 38"
    using encode_sha512_empty by (cases "key_to_english sha512_empty demo_words") auto
  ultimately have "map_sum id length
      (hash_words demo_words sha512_empty sha512_empty_secondary (Some 43)) = Inr 38"
    by simp
  then show ?thesis
    using len pad by simp
qed

text \<open>
  Claim C8: the encoder is a function of the byte string and the word list, so
  encoding twice gives the same words; and for every \<open>k \<ge> 0\<close> the words returned for
  \<open>n = k\<close> are the first \<open>k\<close> words of the full encoding (an error of the encoder is
  the same error in both). With a word list of at least two words the encoder
  succeeds, and the words for \<open>n = k\<close> are the first \<open>k\<close> of the words for \<open>n = k + 1\<close>.
\<close>

theorem truncation_is_prefix:
  assumes "0 \<le> k"
  shows "hash_words wordlist hash hash2 (Some k)
           = map_sum id (take (nat k)) (hash_words wordlist hash hash2 None)
         \<and> (2 \<le> length wordlist \<longrightarrow>
              (\<exists>w1 w2. hash_words wordlist hash hash2 (Some k) = Inr w1
                 \<and> hash_words wordlist hash hash2 (Some (k + 1)) = Inr w2
                 \<and> w1 = take (nat k) w2))"
proof
  show "hash_words wordlist hash hash2 (Some k)
      = map_sum id (take (nat k)) (hash_words wordlist hash hash2 None)"
    using assms
    by (cases "key_to_english (hash @ take (padding_bytes hash) hash2) wordlist")
       (simp_all add: hash_words_def slice_to_nonneg)
next
  show "2 \<le> length wordlist \<longrightarrow>
      (\<exists>w1 w2. hash_words wordlist hash hash2 (Some k) = Inr w1
         \<and> hash_words wordlist hash hash2 (Some (k + 1)) = Inr w2
         \<and> w1 = take (nat k) w2)"
  proof
    assume "2 \<le> length wordlist"
    then obtain idxs where
      "key_to_english (hash @ take (padding_bytes hash) hash2) wordlist
         = Inr (map ((!) wordlist) idxs)"
      using key_to_english_indices by blast
    then have "hash_words wordlist hash hash2 (Some k)
          = Inr (take (nat k) (map ((!) wordlist) idxs))"
        and "hash_words wordlist hash hash2 (Some (k + 1))
          = Inr (take (nat (k + 1)) (map ((!) wordlist) idxs))"
      using assms by (simp_all add: hash_words_def slice_to_nonneg)
    moreover have "take (nat k) (map ((!) wordlist) idxs)
        = take (nat k) (take (nat (k + 1)) (map ((!) wordlist) idxs))"
      using assms by (simp add: min_def)
    ultimately show "\<exists>w1 w2. hash_words wordlist hash hash2 (Some k) = Inr w1
        \<and> hash_words wordlist hash hash2 (Some (k + 1)) = Inr w2
        \<and> w1 = take (nat k) w2"
      by metis
  qed
qed

theorem truncation_is_prefix_witness:
  "(0::int) \<le> 2 \<and> 2 \<le> length [''a'', ''b'']
   \<and> hash_words [''a'', ''b''] [1, 2, 3] [255] None
       = Inr [''b'', ''a'', ''b'', ''b'', ''b'', ''b'', ''b'', ''b'', ''b'', ''b'', ''b'',
              ''b'', ''b'']
   \<and> hash_words [''a'', ''b''] [1, 2, 3] [255] (Some 2) = Inr [''b'', ''a'']
   \<and> hash_words [''a'', ''b''] [1, 2, 3] [255] (Some 3) = Inr [''b'', ''a'', ''b'']"
proof -
  have k: "(0::int) \<le> 2"
    by simp
  have full: "hash_words [''a'', ''b''] [1, 2, 3] [255] None
      = Inr [''b'', ''a'', ''b'', ''b'', ''b'', ''b'', ''b'', ''b'', ''b'', ''b'', ''b'',
             ''b'', ''b'']"
    by (simp add: hash_words_def padding_bytes_def key_to_english_def bits_loop_zero
        bits_loop_nonzero emit_def nbits_of.simps)
  have three: "hash_words [''a'', ''b''] [1, 2, 3] [255] (Some 3) = Inr [''b'', ''a'', ''b'']"
    by (simp add: hash_words_def padding_bytes_def key_to_english_def bits_loop_zero
        bits_loop_nonzero emit_def nbits_of.simps slice_to_def)
  show ?thesis
    using truncation_is_prefix [OF k, of "[''a'', ''b'']" "[1, 2, 3]" "[255]"] full three
    by simp
qed

section \<open>The block offsets\<close>

text \<open>
  Claim C5 says that every block offset lies between 0 and
  \<open>max(0, file_size - block_size)\<close>, the appended last offset being clamped to 0 for a
  file smaller than one block. The code clamps the range of the random draws but not
  the last offset: for a file of 100 bytes and blocks of 512 bytes, with no random
  block, the offsets are \<open>-412\<close> and \<open>0\<close>, and the seek to \<open>-412\<close> makes the whole
  call fail with IOError.
\<close>

theorem last_offset_not_clamped:
  "sample_plan demo 7 (replicate 100 65) None (Some 0) (Some 0) None (Some 512) None
     = Inr (100, 512, [- 412, 0], 7)
   \<and> sha_file_random demo [] 7 (replicate 100 65) None (Some 0) (Some 0) None (Some 512) None
     = Inl IOError"
  by (simp add: sha_file_random_def sample_plan_def block_offsets_def count_blocks_def
      seek_read_def)

text \<open>
  Claim C9: whenever the offsets are computed, offset 0 and offset
  \<open>file_size - block_size\<close> are among them, whatever the number of random blocks; with
  a block count given they are always computed; and for \<open>block_count = 0\<close>,
  \<open>min_blocks = 0\<close>, no \<open>max_blocks\<close>, a file size of 10000 and a block size of 512
  the offsets are exactly 0 and 9488.
\<close>

theorem first_and_last_offsets_present:
  "(sample_plan E g f percent n_blocks min_blocks max_blocks block_size filesize
      = Inr (fsize, bs, offsets, g1)
    \<longrightarrow> 0 \<in> set offsets \<and> fsize - bs \<in> set offsets)
   \<and> (\<exists>r. sample_plan E g f percent (Some k) min_blocks max_blocks block_size filesize
         = Inr r)
   \<and> sample_plan E g f None (Some 0) (Some 0) None (Some 512) (Some 10000)
      = Inr (10000, 512, [0, 9488], g)"
proof (intro conjI)
  show "sample_plan E g f percent n_blocks min_blocks max_blocks block_size filesize
      = Inr (fsize, bs, offsets, g1)
    \<longrightarrow> 0 \<in> set offsets \<and> fsize - bs \<in> set offsets"
    by (auto simp: sample_plan_def block_offsets_def Let_def set_insort_key
        split: sum.splits prod.splits)
  show "\<exists>r. sample_plan E g f percent (Some k) min_blocks max_blocks block_size filesize
      = Inr r"
    by (simp add: sample_plan_def count_blocks_def Let_def split: prod.splits)
  show "sample_plan E g f None (Some 0) (Some 0) None (Some 512) (Some 10000)
      = Inr (10000, 512, [0, 9488], g)"
    by (simp add: sample_plan_def block_offsets_def count_blocks_def)
qed

theorem first_and_last_offsets_present_witness:
  "sample_plan demo 7 (replicate 10 65) None (Some 3) None None (Some 4) None
     = Inr (10, 4, [0, 0, 1, 2, 6], 10)
   \<and> 0 \<in> set [0, 0, 1, 2, 6 :: int] \<and> 10 - 4 \<in> set [0, 0, 1, 2, 6 :: int]"
proof -
  have run: "sample_plan demo 7 (replicate 10 65) None (Some 3) None None (Some 4) None
     = Inr (10, 4, [0, 0, 1, 2, 6], 10)"
    by (simp add: sample_plan_def block_offsets_def count_blocks_def demo_def
        demo_randint_def eval_nat_numeral)
  show ?thesis
    using run
      first_and_last_offsets_present [of demo 7 "replicate 10 65" None "Some 3" None None
        "Some 4" None 10 4 "[0, 0, 1, 2, 6]" 10 3]
    by simp
qed

section \<open>The nominal block count\<close>




section \<open>The order of drawing and seeding\<close>

text \<open>
  The offsets are computed from the generator state the call starts with: the seeding
  function has no part in them.
\<close>

lemma sample_plan_ignores_seed:
  "sample_plan (E\<lparr>seed := sd\<rparr>) g f percent n_blocks min_blocks max_blocks block_size filesize
     = sample_plan E g f percent n_blocks min_blocks max_blocks block_size filesize"
  by (simp add: sample_plan_def Let_def split: sum.splits)

lemma sha_file_random_generator_after:
  "sha_file_random E sha g f percent n_blocks min_blocks max_blocks block_size filesize
     = Inr (hashes, sha', g') \<Longrightarrow>
   \<exists>fsize. g' = seed E (sha_digest E (sha_update E sha (py_str fsize)))"
  by (auto simp: sha_file_random_def Let_def split: sum.splits prod.splits)

text \<open>
  Claim C1 says that two runs of sampled hashing on the same file with the same
  parameters give the same offsets and the same digests, whatever the state of the
  process-wide generator before the call. The code draws the offsets first, from the
  generator as the call finds it, and seeds the generator afterwards (under the
  comment \<^verbatim>\<open>use consistent seed\<close>). On the ten-byte file, with one random block of 4
  bytes, a generator in state 1 gives the offsets 0, 1, 6 and a generator in state 2
  gives 0, 2, 6; the two digest pairs differ.
\<close>

theorem offsets_follow_ambient_generator:
  "sample_plan demo 1 demo_file None (Some 1) None None (Some 4) None
     = Inr (10, 4, [0, 1, 6], 2)
   \<and> sample_plan demo 2 demo_file None (Some 1) None None (Some 4) None
     = Inr (10, 4, [0, 2, 6], 3)
   \<and> sha_file_random demo [] 1 demo_file None (Some 1) None None (Some 4) None
     = Inr (([165, 14], [88, 16]),
            [49, 48, 10, 20, 30, 40, 20, 30, 40, 50, 70, 80, 90, 100, 165, 14], 99)
   \<and> sha_file_random demo [] 2 demo_file None (Some 1) None None (Some 4) None
     = Inr (([205, 14], [168, 16]),
            [49, 48, 10, 20, 30, 40, 30, 40, 50, 60, 70, 80, 90, 100, 205, 14], 99)"
  by (simp add: sha_file_random_def sample_plan_def block_offsets_def count_blocks_def
      seek_read_def demo_def demo_randint_def demo_update_def demo_digest_def demo_seed_def
      demo_file_def two_digests_def py_str_def dec_digits.simps Let_def)

text \<open>
  Claim C2 says that the file size is fed to the digest and the generator is seeded
  from the digest before the offsets are drawn, from the seeded generator. In the code
  the draws come first. On the ten-byte file the seed leaves the generator in state
  99, from which the first draw over \<open>[0, 6]\<close> would be 1; with the generator in
  state 3 before the call the offset drawn is 3, and the call returns the generator
  in state 99, freshly seeded and never drawn from.
\<close>

theorem offsets_drawn_before_seeding:
  "seed demo (sha_digest demo (sha_update demo [] (py_str 10))) = 99
   \<and> fst (randint demo 99 0 6) = 1
   \<and> fst (randint demo 3 0 6) = 3
   \<and> sample_plan demo 3 demo_file None (Some 1) None None (Some 4) None
     = Inr (10, 4, [0, 3, 6], 4)
   \<and> sha_file_random demo [] 3 demo_file None (Some 1) None None (Some 4) None
     = Inr (([245, 14], [248, 16]),
            [49, 48, 10, 20, 30, 40, 40, 50, 60, 70, 70, 80, 90, 100, 245, 14], 99)"
  by (simp add: sha_file_random_def sample_plan_def block_offsets_def count_blocks_def
      seek_read_def demo_def demo_randint_def demo_update_def demo_digest_def demo_seed_def
      demo_file_def two_digests_def py_str_def dec_digits.simps Let_def)

section \<open>A block size that is not positive\<close>









end
